theory Spec2Isabelle
  imports Main "HOL-Library.AList"
begin

section \<open>Data model of the form hook\<close>

text \<open>
  The development embeds \<^verbatim>\<open>src/index.ts\<close> and its sibling variant in
  \<^verbatim>\<open>src/unnamed/part_000\<close>, whose reducers and validation pass differ from it in
  the two name patterns only.

  A JavaScript string is modelled as a \<^typ>\<open>string\<close> whose characters stand for the
  code units \<open>0x00 .. 0xFF\<close>. A JavaScript object with string keys is an association
  list in insertion order; \<open>map_of\<close> is the property read \<^verbatim>\<open>o[k]\<close> (with \<open>None\<close> for
  \<^verbatim>\<open>undefined\<close>) and \<open>AList.update\<close> is the write \<^verbatim>\<open>{...o, [k]: v}\<close>, which
  replaces an existing property in place and appends a new one. An optional property
  of an object is an \<open>option\<close>.

  A read \<^verbatim>\<open>o[k]\<close> of a key that \<open>o\<close> does not own yields a member of
  \<^verbatim>\<open>Object.prototype\<close> for a few names (\<^verbatim>\<open>"constructor"\<close>, \<^verbatim>\<open>"__proto__"\<close>, ...). None
  of these has an enumerable property of its own or one of the properties the code
  reads (\<^verbatim>\<open>value\<close>, \<^verbatim>\<open>validation\<close>), so they behave as \<^verbatim>\<open>undefined\<close> does where the
  code reads them, and \<open>None\<close> stands for them too.
\<close>

datatype FormFieldOptions =
  None_type | Email | Password | PasswordConfirmation | FirstName | LastName

record validation_rule =
  vtype :: FormFieldOptions
  customError :: "string option"
  optional :: "bool option"

text \<open>
  The TypeScript type requires \<^verbatim>\<open>value\<close> and \<^verbatim>\<open>validation\<close>; the reducer however
  builds an object without them when it is given a key that the store does not have
  (\<^verbatim>\<open>{...undefined, value: v}\<close>), so all three properties are optional in the model
  and \<open>fields_typed\<close> below says what the type promises.
\<close>

record field =
  fvalue :: "string option"
  blurred :: "bool option"
  validation :: "validation_rule option"

type_synonym Fields = "(string \<times> field) list"
type_synonym Errors = "(string \<times> string) list"

text \<open>
  An action is the object that the reducer's \<^verbatim>\<open>switch (action.type)\<close> inspects: the
  type tag is a string, so that the \<^verbatim>\<open>default\<close> branch has inputs; \<^verbatim>\<open>BLUR_INPUT\<close>
  does not read the value. The selectors carry a prefix (\<open>atype\<close>, \<open>afield\<close>,
  \<open>avalue\<close>; \<open>etype\<close>, \<open>efield\<close>, \<open>eerror\<close>; \<open>fvalue\<close>, \<open>vtype\<close>) because the two
  action types share their property names and \<^verbatim>\<open>value\<close> and \<^verbatim>\<open>type\<close> are not
  available as names.
\<close>

record FormAction =
  atype :: string
  afield :: string
  avalue :: string

record ErrorAction =
  etype :: string
  efield :: string
  eerror :: string

datatype js_error = TypeError

definition fields_typed :: "Fields \<Rightarrow> bool" where
  "fields_typed fs = list_all (\<lambda>(k, f). fvalue f \<noteq> None \<and> validation f \<noteq> None) fs"

subsection \<open>Property enumeration\<close>

text \<open>
  \<^verbatim>\<open>Object.keys\<close> lists the keys that are canonical array indices first, in ascending
  numeric order, and then the remaining keys in insertion order.
\<close>

definition is_digit :: "char \<Rightarrow> bool" where
  "is_digit c = (48 \<le> (of_char c :: nat) \<and> (of_char c :: nat) \<le> 57)"

definition digits_value :: "string \<Rightarrow> nat" where
  "digits_value s = foldl (\<lambda>n c. 10 * n + ((of_char c :: nat) - 48)) 0 s"

definition is_array_index :: "string \<Rightarrow> bool" where
  "is_array_index s =
     (s \<noteq> [] \<and> list_all is_digit s \<and> (s = ''0'' \<or> hd s \<noteq> CHR ''0'')
      \<and> digits_value s < 4294967295)"

definition object_keys :: "(string \<times> 'v) list \<Rightarrow> string list" where
  "object_keys obj =
     (let ks = map fst obj
      in sort_key digits_value (filter is_array_index ks)
         @ filter (\<lambda>k. \<not> is_array_index k) ks)"

subsection \<open>String helpers\<close>

text \<open>
  \<^verbatim>\<open>String.prototype.trim\<close> strips white space and line terminators from both ends;
  among the code units below \<open>0x100\<close> these are TAB, LF, VT, FF, CR, SPACE and NBSP.
\<close>

definition is_white_space :: "char \<Rightarrow> bool" where
  "is_white_space c = ((of_char c :: nat) \<in> {9, 10, 11, 12, 13, 32, 160})"

definition trim :: "string \<Rightarrow> string" where
  "trim s = rev (dropWhile is_white_space (rev (dropWhile is_white_space s)))"

text \<open>\<^verbatim>\<open>a || b\<close> on an optional string \<open>a\<close>: \<open>b\<close> when \<open>a\<close> is undefined or empty.\<close>

definition or_else :: "string option \<Rightarrow> string \<Rightarrow> string" where
  "or_else a b = (case a of None \<Rightarrow> b | Some s \<Rightarrow> if s = [] then b else s)"

section \<open>The reducers\<close>

definition errorsReducer :: "Errors \<Rightarrow> ErrorAction \<Rightarrow> Errors" where
  "errorsReducer state action =
     (if etype action = ''UPDATE_ERROR''
      then AList.update (efield action) (eerror action) state
      else state)"

text \<open>\<^verbatim>\<open>{...state[action.field]}\<close>: the properties of the field, none when it is undefined.\<close>

definition spread :: "field option \<Rightarrow> field" where
  "spread fo =
     (case fo of
        None \<Rightarrow> \<lparr>fvalue = None, blurred = None, validation = None\<rparr>
      | Some f \<Rightarrow> f)"

definition fieldsReducer :: "Fields \<Rightarrow> FormAction \<Rightarrow> Fields" where
  "fieldsReducer state action =
     (if atype action = ''UPDATE_VALUE''
      then AList.update (afield action)
             ((spread (map_of state (afield action)))\<lparr>fvalue := Some (trim (avalue action))\<rparr>)
             state
      else if atype action = ''BLUR_INPUT''
      then AList.update (afield action)
             ((spread (map_of state (afield action)))\<lparr>blurred := Some True\<rparr>)
             state
      else state)"

section \<open>The validation pass\<close>

text \<open>
  The string-validation library is external to the repository; its two functions are
  parameters of the model. \<open>isLength v lo hi\<close> stands for
  \<^verbatim>\<open>validator.isLength(v, {min: lo, max: hi})\<close>.
\<close>

record validator =
  isEmail :: "string \<Rightarrow> bool"
  isLength :: "string \<Rightarrow> nat \<Rightarrow> nat \<Rightarrow> bool"

text \<open>
  Modelled from the spec: \<^verbatim>\<open>validator.isLength\<close>, of the external library, as the spec
  reads it for the password rule (``value length outside [6,128]''): the length of the
  value lies within the bounds. (The library counts a surrogate pair once; the strings
  of the model, of code units below \<open>0x100\<close>, have none.)
\<close>

definition isLength_spec :: "string \<Rightarrow> nat \<Rightarrow> nat \<Rightarrow> bool" where
  "isLength_spec v lo hi = (lo \<le> length v \<and> length v \<le> hi)"

text \<open>The two source files differ in the quantifier that ends the name patterns.\<close>

datatype variant = Index_ts | Part_000

definition is_alpha :: "char \<Rightarrow> bool" where
  "is_alpha c =
     ((65 \<le> (of_char c :: nat) \<and> (of_char c :: nat) \<le> 90)
      \<or> (97 \<le> (of_char c :: nat) \<and> (of_char c :: nat) \<le> 122))"

text \<open>The classes \<^verbatim>\<open>[a-z .'-]\<close> and \<^verbatim>\<open>[a-z ,.'-]\<close> under the flag \<^verbatim>\<open>i\<close>.\<close>

definition first_name_class :: "char \<Rightarrow> bool" where
  "first_name_class c = (is_alpha c \<or> c \<in> set '' .'-'')"

definition last_name_class :: "char \<Rightarrow> bool" where
  "last_name_class c = (is_alpha c \<or> c \<in> set '' ,.'-'')"

text \<open>
  \<^verbatim>\<open>/^A+B+$/\<close> and \<^verbatim>\<open>/^A+B*$/\<close>: the whole input splits into a non-empty run of \<open>A\<close>
  followed by a non-empty (respectively possibly empty) run of \<open>B\<close>.
\<close>

definition re_plus_plus :: "(char \<Rightarrow> bool) \<Rightarrow> (char \<Rightarrow> bool) \<Rightarrow> string \<Rightarrow> bool" where
  "re_plus_plus A B s =
     list_ex (\<lambda>i. list_all A (take i s) \<and> list_all B (drop i s)) [1 ..< length s]"

definition re_plus_star :: "(char \<Rightarrow> bool) \<Rightarrow> (char \<Rightarrow> bool) \<Rightarrow> string \<Rightarrow> bool" where
  "re_plus_star A B s =
     list_ex (\<lambda>i. list_all A (take i s) \<and> list_all B (drop i s)) [1 ..< Suc (length s)]"

definition name_match :: "variant \<Rightarrow> (char \<Rightarrow> bool) \<Rightarrow> string \<Rightarrow> bool" where
  "name_match vr B s =
     (case vr of
        Index_ts \<Rightarrow> re_plus_plus is_alpha B s
      | Part_000 \<Rightarrow> re_plus_star is_alpha B s)"

definition first_name_pattern_error :: string where
  "first_name_pattern_error =
     ''Must start with an alpha character, and consist of alpha and \" ' \", \" . \", or \" - \" characters''"

definition last_name_pattern_error :: string where
  "last_name_pattern_error =
     ''Must start with an alpha character, and consist of alpha and \" ' \", \" . \", \" , \", or \" - \" characters''"

definition name_pattern_error :: "FormFieldOptions \<Rightarrow> string" where
  "name_pattern_error t =
     (if t = FirstName then first_name_pattern_error else last_name_pattern_error)"

definition update_error :: "string \<Rightarrow> string \<Rightarrow> ErrorAction" where
  "update_error fieldName e = \<lparr>etype = ''UPDATE_ERROR'', efield = fieldName, eerror = e\<rparr>"

definition dispatchValid :: "string \<Rightarrow> ErrorAction" where
  "dispatchValid fieldName = update_error fieldName ''''"

definition name_rule ::
  "variant \<Rightarrow> (char \<Rightarrow> bool) \<Rightarrow> string \<Rightarrow> string \<Rightarrow> validation_rule \<Rightarrow> string \<Rightarrow> string
     \<Rightarrow> ErrorAction" where
  "name_rule vr B missing pattern vd fieldName v =
     (if v = [] then update_error fieldName (or_else (customError vd) missing)
      else if \<not> name_match vr B v then update_error fieldName (or_else (customError vd) pattern)
      else dispatchValid fieldName)"

text \<open>
  The body of the \<^verbatim>\<open>forEach\<close> callback of \<^verbatim>\<open>validate\<close>: the one action it dispatches
  for \<open>fieldName\<close>, or the \<^verbatim>\<open>TypeError\<close> raised by reading a property of \<^verbatim>\<open>undefined\<close>.
  \<open>name_rule\<close> is the body shared by the two name cases, \<open>rule_action\<close> the
  \<^verbatim>\<open>switch\<close> on the validation type, \<open>validateField\<close> the callback. Reading
  \<^verbatim>\<open>.length\<close> of an undefined value throws, and so does the library when it is handed
  a value that is not a string; the comparison of the confirmation case does not.
\<close>

definition rule_action ::
  "variant \<Rightarrow> validator \<Rightarrow> Fields \<Rightarrow> string \<Rightarrow> field \<Rightarrow> validation_rule
     \<Rightarrow> js_error + ErrorAction" where
  "rule_action vr V formState fieldName fld vd =
     (case vtype vd of
        Email \<Rightarrow>
          (case fvalue fld of
             None \<Rightarrow> Inl TypeError
           | Some v \<Rightarrow>
              if v = [] then Inr (update_error fieldName ''Please provide an email'')
              else if \<not> isEmail V v
              then Inr (update_error fieldName
                          (or_else (customError vd) ''Please provide a valid email''))
              else Inr (dispatchValid fieldName))
      | Password \<Rightarrow>
          (case fvalue fld of
             None \<Rightarrow> Inl TypeError
           | Some v \<Rightarrow>
              if isLength V v 6 128 then Inr (dispatchValid fieldName)
              else Inr (update_error fieldName
                          (or_else (customError vd)
                             ''Please provide a password of at least 6 characters'')))
      | PasswordConfirmation \<Rightarrow>
          if fvalue fld \<noteq> Option.bind (map_of formState ''password'') fvalue
          then Inr (update_error fieldName
                      (or_else (customError vd) ''Passwords do not match''))
          else Inr (dispatchValid fieldName)
      | FirstName \<Rightarrow>
          (case fvalue fld of
             None \<Rightarrow> Inl TypeError
           | Some v \<Rightarrow>
              Inr (name_rule vr first_name_class ''Please provide a first name.''
                     first_name_pattern_error vd fieldName v))
      | LastName \<Rightarrow>
          (case fvalue fld of
             None \<Rightarrow> Inl TypeError
           | Some v \<Rightarrow>
              Inr (name_rule vr last_name_class ''Please provide a last name.''
                     last_name_pattern_error vd fieldName v))
      | None_type \<Rightarrow> Inr (dispatchValid fieldName))"

definition validateField ::
  "variant \<Rightarrow> validator \<Rightarrow> Fields \<Rightarrow> string \<Rightarrow> js_error + ErrorAction" where
  "validateField vr V formState fieldName =
     (case map_of formState fieldName of
        None \<Rightarrow> Inl TypeError
      | Some fld \<Rightarrow>
         (case validation fld of
            None \<Rightarrow> Inl TypeError
          | Some vd \<Rightarrow>
             if optional vd = Some True then Inr (dispatchValid fieldName)
             else rule_action vr V formState fieldName fld vd))"

text \<open>The \<^verbatim>\<open>forEach\<close> loop: the actions dispatched, in order, unless a callback throws.\<close>

fun validate_each ::
  "variant \<Rightarrow> validator \<Rightarrow> Fields \<Rightarrow> string list \<Rightarrow> js_error + ErrorAction list" where
  "validate_each vr V formState [] = Inr []"
| "validate_each vr V formState (fieldName # rest) =
     (case validateField vr V formState fieldName of
        Inl e \<Rightarrow> Inl e
      | Inr a \<Rightarrow>
         (case validate_each vr V formState rest of
            Inl e \<Rightarrow> Inl e
          | Inr as \<Rightarrow> Inr (a # as)))"

definition validate :: "variant \<Rightarrow> validator \<Rightarrow> Fields \<Rightarrow> js_error + ErrorAction list" where
  "validate vr V formState = validate_each vr V formState (object_keys formState)"

text \<open>The effect: the dispatched actions go through the errors reducer one by one.\<close>

definition validation_pass ::
  "variant \<Rightarrow> validator \<Rightarrow> Fields \<Rightarrow> Errors \<Rightarrow> js_error + Errors" where
  "validation_pass vr V formState errorState =
     (case validate vr V formState of
        Inl e \<Rightarrow> Inl e
      | Inr as \<Rightarrow> Inr (foldl errorsReducer errorState as))"

section \<open>The hook\<close>

record hook_state =
  formState :: Fields
  errorState :: Errors

text \<open>
  The initial error store: \<^verbatim>\<open>Object.keys(initialState).reduce(..., {})\<close>. The callback
  writes with the assignment \<^verbatim>\<open>acc[current] = ""\<close>. Unlike a property definition in an
  object literal, an assignment goes through an inherited accessor, and a plain object
  inherits the accessor \<^verbatim>\<open>__proto__\<close>, whose setter ignores a string: for the key
  \<^verbatim>\<open>"__proto__"\<close> the accumulator gets no entry. Every other key is replaced in place or
  appended.
\<close>

definition assign_error :: "Errors \<Rightarrow> string \<Rightarrow> string \<Rightarrow> Errors" where
  "assign_error acc current e =
     (if current = ''__proto__'' then acc else AList.update current e acc)"

definition initial_errors :: "Fields \<Rightarrow> Errors" where
  "initial_errors initialState =
     foldl (\<lambda>acc current. assign_error acc current '''') [] (object_keys initialState)"

definition useForm :: "Fields \<Rightarrow> hook_state" where
  "useForm initialState =
     \<lparr>formState = initialState, errorState = initial_errors initialState\<rparr>"

text \<open>
  What happens to the two stores between renders: the caller dispatches a form action
  (the field store changes, the error store does not yet), or the validation effect
  runs on the current field store.
\<close>

datatype event = Dispatch FormAction | Effect

fun run :: "variant \<Rightarrow> validator \<Rightarrow> hook_state \<Rightarrow> event list \<Rightarrow> js_error + hook_state" where
  "run vr V st [] = Inr st"
| "run vr V st (Dispatch a # evs) =
     run vr V (st\<lparr>formState := fieldsReducer (formState st) a\<rparr>) evs"
| "run vr V st (Effect # evs) =
     (case validation_pass vr V (formState st) (errorState st) of
        Inl e \<Rightarrow> Inl e
      | Inr es \<Rightarrow> run vr V (st\<lparr>errorState := es\<rparr>) evs)"

text \<open>
  An event is \<open>known_target\<close> when it is the effect, or a dispatch that either has an
  unrecognized type or names a key of the initial field store (what the type
  \<^verbatim>\<open>keyof T\<close> of the sibling variant enforces at compile time).
\<close>

definition known_target :: "Fields \<Rightarrow> event \<Rightarrow> bool" where
  "known_target init ev =
     (case ev of
        Effect \<Rightarrow> True
      | Dispatch a \<Rightarrow>
          (atype a = ''UPDATE_VALUE'' \<or> atype a = ''BLUR_INPUT'') \<longrightarrow>
            afield a \<in> set (object_keys init))"

text \<open>
  \<^verbatim>\<open>formInvalid\<close>: the predicate of \<^verbatim>\<open>find\<close>, the search over the keys of the error
  store, and the coercion \<^verbatim>\<open>!!\<close> of the key found (the empty string is falsy).
\<close>

definition invalid_required :: "Fields \<Rightarrow> Errors \<Rightarrow> string \<Rightarrow> js_error + bool" where
  "invalid_required fs es key =
     (case map_of es key of
        None \<Rightarrow> Inr False
      | Some e \<Rightarrow>
         if e = [] then Inr False
         else
           (case map_of fs key of
              None \<Rightarrow> Inl TypeError
            | Some fld \<Rightarrow>
               (case validation fld of
                  None \<Rightarrow> Inl TypeError
                | Some vd \<Rightarrow> Inr (optional vd \<noteq> Some True))))"

fun find_key :: "Fields \<Rightarrow> Errors \<Rightarrow> string list \<Rightarrow> js_error + string option" where
  "find_key fs es [] = Inr None"
| "find_key fs es (key # keys) =
     (case invalid_required fs es key of
        Inl e \<Rightarrow> Inl e
      | Inr True \<Rightarrow> Inr (Some key)
      | Inr False \<Rightarrow> find_key fs es keys)"

definition formInvalid :: "hook_state \<Rightarrow> js_error + bool" where
  "formInvalid st =
     (case find_key (formState st) (errorState st) (object_keys (errorState st)) of
        Inl e \<Rightarrow> Inl e
      | Inr None \<Rightarrow> Inr False
      | Inr (Some key) \<Rightarrow> Inr (key \<noteq> []))"

section \<open>Example data\<close>

text \<open>
  A stand-in for the external library, used only to evaluate the model on examples:
  its \<open>isEmail\<close> merely looks for an \<^verbatim>\<open>@\<close>.
\<close>

definition demo_validator :: validator where
  "demo_validator = \<lparr>isEmail = (\<lambda>s. CHR ''@'' \<in> set s), isLength = isLength_spec\<rparr>"

definition required :: "FormFieldOptions \<Rightarrow> validation_rule" where
  "required t = \<lparr>vtype = t, customError = None, optional = None\<rparr>"

definition demo_fields :: Fields where
  "demo_fields =
     [(''email'', \<lparr>fvalue = Some ''a@b.com'', blurred = None, validation = Some (required Email)\<rparr>),
      (''password'', \<lparr>fvalue = Some ''secret1'', blurred = None,
          validation = Some (required Password)\<rparr>),
      (''confirm'', \<lparr>fvalue = Some ''secret2'', blurred = None,
          validation = Some (required PasswordConfirmation)\<rparr>),
      (''first'', \<lparr>fvalue = Some ''J'', blurred = None, validation = Some (required FirstName)\<rparr>),
      (''nickname'', \<lparr>fvalue = Some ''x'', blurred = None,
          validation = Some \<lparr>vtype = Email, customError = None, optional = Some True\<rparr>\<rparr>)]"

text \<open>A form with a confirmation field and no field keyed \<^verbatim>\<open>"password"\<close>.\<close>

definition confirm_only_form :: Fields where
  "confirm_only_form =
     [(''confirm'', \<lparr>fvalue = Some '''', blurred = None,
          validation = Some (required PasswordConfirmation)\<rparr>)]"

definition demo_events :: "event list" where
  "demo_events =
     [Effect,
      Dispatch \<lparr>atype = ''UPDATE_VALUE'', afield = ''first'', avalue = '' Jo ''\<rparr>,
      Dispatch \<lparr>atype = ''BLUR_INPUT'', afield = ''first'', avalue = ''''\<rparr>,
      Effect]"

text \<open>A form whose only field has the empty string as its key, and its state after the
  first validation pass.\<close>

definition empty_key_form :: Fields where
  "empty_key_form =
     [('''', \<lparr>fvalue = Some '''', blurred = None, validation = Some (required Email)\<rparr>)]"

definition empty_key_state :: hook_state where
  "empty_key_state =
     \<lparr>formState = empty_key_form, errorState = [('''', ''Please provide an email'')]\<rparr>"

text \<open>The first validation pass followed by a dispatch that names no field of the form.\<close>

definition unknown_key_run :: "js_error + hook_state" where
  "unknown_key_run =
     run Index_ts demo_validator (useForm demo_fields)
       [Effect, Dispatch \<lparr>atype = ''UPDATE_VALUE'', afield = ''nope'', avalue = ''x''\<rparr>]"

text \<open>
  Two forms whose values all fail their rules: one with a custom error on every field,
  one with none. The first also has an empty email, the second an empty password and
  one of 129 characters.
\<close>

definition customized :: "FormFieldOptions \<Rightarrow> string \<Rightarrow> validation_rule" where
  "customized t c = \<lparr>vtype = t, customError = Some c, optional = None\<rparr>"

definition custom_fields :: Fields where
  "custom_fields =
     [(''email'', \<lparr>fvalue = Some ''not-an-email'', blurred = None,
          validation = Some (customized Email ''Custom!'')\<rparr>),
      (''blank'', \<lparr>fvalue = Some '''', blurred = None,
          validation = Some (customized Email ''Custom!'')\<rparr>),
      (''password'', \<lparr>fvalue = Some ''abc'', blurred = None,
          validation = Some (customized Password ''weak'')\<rparr>),
      (''confirm'', \<lparr>fvalue = Some ''abd'', blurred = None,
          validation = Some (customized PasswordConfirmation ''no match'')\<rparr>)]"

definition invalid_fields :: Fields where
  "invalid_fields =
     [(''email'', \<lparr>fvalue = Some ''not-an-email'', blurred = None,
          validation = Some (required Email)\<rparr>),
      (''password'', \<lparr>fvalue = Some ''abc'', blurred = None,
          validation = Some (required Password)\<rparr>),
      (''blank'', \<lparr>fvalue = Some '''', blurred = None,
          validation = Some (required Password)\<rparr>),
      (''long'', \<lparr>fvalue = Some (replicate 129 (CHR ''a'')), blurred = None,
          validation = Some (required Password)\<rparr>)]"

text \<open>A form with a field keyed \<^verbatim>\<open>"__proto__"\<close>, as \<^verbatim>\<open>JSON.parse\<close> builds it.\<close>

definition proto_form :: Fields where
  "proto_form =
     [(''__proto__'', \<lparr>fvalue = Some ''a@b.com'', blurred = None,
          validation = Some (required Email)\<rparr>)]"

text \<open>A form whose confirmation equals its password.\<close>

definition matching_fields :: Fields where
  "matching_fields =
     [(''password'', \<lparr>fvalue = Some ''secret1'', blurred = None,
          validation = Some (required Password)\<rparr>),
      (''confirm'', \<lparr>fvalue = Some ''secret1'', blurred = None,
          validation = Some (customized PasswordConfirmation ''no match'')\<rparr>)]"

section \<open>Basic facts\<close>

lemma set_object_keys: "set (object_keys obj) = fst ` set obj"
  by (auto simp: object_keys_def Let_def)

lemma typed_lookup:
  "fields_typed fs \<Longrightarrow> map_of fs k = Some f \<Longrightarrow> fvalue f \<noteq> None \<and> validation f \<noteq> None"
  by (auto simp: fields_typed_def list_all_iff dest!: map_of_SomeD)

lemma update_error_sel [simp]:
  "etype (update_error k e) = ''UPDATE_ERROR''"
  "efield (update_error k e) = k"
  "eerror (update_error k e) = e"
  by (simp_all add: update_error_def)

lemma dispatchValid_sel [simp]:
  "etype (dispatchValid k) = ''UPDATE_ERROR''"
  "efield (dispatchValid k) = k"
  "eerror (dispatchValid k) = []"
  by (simp_all add: dispatchValid_def)

lemma name_rule_sel [simp]:
  "etype (name_rule vr B m p vd k v) = ''UPDATE_ERROR''"
  "efield (name_rule vr B m p vd k v) = k"
  by (simp_all add: name_rule_def)

lemma rule_action_target:
  assumes "rule_action vr V fs k fld vd = Inr a"
  shows "etype a = ''UPDATE_ERROR'' \<and> efield a = k"
proof (cases "vtype vd")
  case PasswordConfirmation
  with assms show ?thesis by (auto simp: rule_action_def split: if_splits)
next
  case None_type
  with assms show ?thesis by (auto simp: rule_action_def)
next
  case Email
  with assms show ?thesis by (cases "fvalue fld") (auto simp: rule_action_def split: if_splits)
next
  case Password
  with assms show ?thesis by (cases "fvalue fld") (auto simp: rule_action_def split: if_splits)
next
  case FirstName
  with assms show ?thesis by (cases "fvalue fld") (auto simp: rule_action_def)
next
  case LastName
  with assms show ?thesis by (cases "fvalue fld") (auto simp: rule_action_def)
qed

lemma validateField_target:
  assumes "validateField vr V fs k = Inr a"
  shows "etype a = ''UPDATE_ERROR'' \<and> efield a = k"
proof -
  from assms obtain fld vd where f: "map_of fs k = Some fld" "validation fld = Some vd"
    by (auto simp: validateField_def split: option.splits)
  show ?thesis
  proof (cases "optional vd = Some True")
    case True
    with assms f show ?thesis by (auto simp: validateField_def)
  next
    case False
    with assms f have "rule_action vr V fs k fld vd = Inr a" by (simp add: validateField_def)
    then show ?thesis by (rule rule_action_target)
  qed
qed

lemma rule_action_typed:
  assumes "fvalue fld = Some v"
  shows "\<exists>a. rule_action vr V fs k fld vd = Inr a"
  using assms by (cases "vtype vd") (simp_all add: rule_action_def)

lemma validateField_typed:
  assumes "fields_typed fs" "map_of fs k = Some f"
  shows "\<exists>a. validateField vr V fs k = Inr a"
proof -
  from typed_lookup[OF assms] obtain v vd where "fvalue f = Some v" "validation f = Some vd"
    by auto
  with assms(2) rule_action_typed[of f v vr V fs k vd] show ?thesis
    by (simp add: validateField_def)
qed

lemma validate_each_total:
  "(\<forall>k \<in> set ks. \<exists>a. validateField vr V fs k = Inr a) \<Longrightarrow>
     validate_each vr V fs ks = Inr (map (\<lambda>k. projr (validateField vr V fs k)) ks)"
  by (induction ks) auto

lemma validate_each_targets:
  "validate_each vr V fs ks = Inr as \<Longrightarrow>
     map efield as = ks \<and> (\<forall>a \<in> set as. etype a = ''UPDATE_ERROR'')"
proof (induction ks arbitrary: as)
  case Nil
  then show ?case by simp
next
  case (Cons k ks)
  from Cons.prems obtain a as' where
    a: "validateField vr V fs k = Inr a" and as': "validate_each vr V fs ks = Inr as'"
    and eq: "as = a # as'"
    by (auto split: sum.splits)
  from validateField_target[OF a] Cons.IH[OF as'] eq show ?case by simp
qed

lemma map_of_errorsReducer:
  "etype a = ''UPDATE_ERROR'' \<Longrightarrow>
     map_of (errorsReducer es a) k = (if k = efield a then Some (eerror a) else map_of es k)"
  by (simp add: errorsReducer_def update_conv')

lemma keys_errorsReducer:
  "etype a = ''UPDATE_ERROR'' \<Longrightarrow>
     fst ` set (errorsReducer es a) = insert (efield a) (fst ` set es)"
  by (simp add: errorsReducer_def dom_update)

lemma map_of_foldl_errorsReducer:
  assumes "\<forall>k' \<in> set ks. etype (g k') = ''UPDATE_ERROR'' \<and> efield (g k') = k'"
  shows "map_of (foldl errorsReducer es (map g ks)) k =
           (if k \<in> set ks then Some (eerror (g k)) else map_of es k)"
  using assms
proof (induction ks arbitrary: es)
  case Nil
  then show ?case by simp
next
  case (Cons k0 ks)
  then show ?case by (simp add: map_of_errorsReducer)
qed

lemma keys_foldl_errorsReducer:
  assumes "\<forall>a \<in> set as. etype a = ''UPDATE_ERROR''"
  shows "fst ` set (foldl errorsReducer es as) = fst ` set es \<union> set (map efield as)"
  using assms
proof (induction as arbitrary: es)
  case Nil
  then show ?case by simp
next
  case (Cons a as)
  then show ?case by (auto simp: keys_errorsReducer)
qed

lemma validation_pass_keys:
  assumes "validation_pass vr V fs es = Inr es'"
  shows "fst ` set es' = fst ` set es \<union> fst ` set fs"
proof -
  from assms obtain as where as: "validate_each vr V fs (object_keys fs) = Inr as"
    and es': "es' = foldl errorsReducer es as"
    by (auto simp: validation_pass_def validate_def split: sum.splits)
  from validate_each_targets[OF as] keys_foldl_errorsReducer[of as es] es'
  show ?thesis by (simp add: set_object_keys)
qed

lemma validation_pass_entry:
  assumes typed: "fields_typed fs" and k: "map_of fs k = Some f"
    and a: "validateField vr V fs k = Inr a"
  shows "\<exists>es'. validation_pass vr V fs es = Inr es' \<and> map_of es' k = Some (eerror a)"
proof -
  let ?g = "\<lambda>k. projr (validateField vr V fs k)"
  have ok: "\<exists>a. validateField vr V fs k' = Inr a" if "k' \<in> set (object_keys fs)" for k'
  proof -
    from that obtain f' where "map_of fs k' = Some f'"
      by (auto simp: set_object_keys dest: weak_map_of_SomeI)
    with typed show ?thesis by (rule validateField_typed)
  qed
  then have run: "validate vr V fs = Inr (map ?g (object_keys fs))"
    unfolding validate_def by (intro validate_each_total) blast
  have tgt: "\<forall>k' \<in> set (object_keys fs). etype (?g k') = ''UPDATE_ERROR'' \<and> efield (?g k') = k'"
  proof
    fix k' assume "k' \<in> set (object_keys fs)"
    from ok[OF this] obtain a' where a': "validateField vr V fs k' = Inr a'" ..
    from validateField_target[OF a'] a'
    show "etype (?g k') = ''UPDATE_ERROR'' \<and> efield (?g k') = k'" by simp
  qed
  from k have mem: "k \<in> set (object_keys fs)"
    by (auto simp: set_object_keys dest!: map_of_SomeD intro: rev_image_eqI)
  from map_of_foldl_errorsReducer[OF tgt, of es k] mem a
  have "map_of (foldl errorsReducer es (map ?g (object_keys fs))) k = Some (eerror a)"
    by simp
  with run show ?thesis by (simp add: validation_pass_def)
qed


lemma validation_pass_total:
  assumes "fields_typed fs"
  shows "\<exists>es'. validation_pass vr V fs es = Inr es'"
proof -
  have "\<exists>a. validateField vr V fs k = Inr a" if "k \<in> set (object_keys fs)" for k
  proof -
    from that obtain f where "map_of fs k = Some f"
      by (auto simp: set_object_keys dest: weak_map_of_SomeI)
    with assms show ?thesis by (rule validateField_typed)
  qed
  then have "validate vr V fs = Inr (map (\<lambda>k. projr (validateField vr V fs k)) (object_keys fs))"
    unfolding validate_def by (intro validate_each_total) blast
  then show ?thesis by (simp add: validation_pass_def)
qed

lemma validate_targets:
  assumes "validate vr V fs = Inr as"
  shows "map efield as = object_keys fs \<and> (\<forall>a \<in> set as. etype a = ''UPDATE_ERROR'')"
  using assms unfolding validate_def by (rule validate_each_targets)

lemma or_else_nonempty: "b \<noteq> [] \<Longrightarrow> or_else a b \<noteq> []"
  by (simp add: or_else_def split: option.splits)

lemma pattern_errors_nonempty:
  "first_name_pattern_error \<noteq> []" "last_name_pattern_error \<noteq> []"
  by (simp_all add: first_name_pattern_error_def last_name_pattern_error_def)

subsection \<open>The name patterns\<close>

lemma single_letter_no_match: "\<not> re_plus_plus A B [c]"
  by (simp add: re_plus_plus_def)

lemma single_letter_match: "re_plus_star A B [c] = A c"
  by (simp add: re_plus_star_def)

text \<open>
  Since every letter is in the second class, a pattern accepts exactly the inputs that
  start with a letter and continue in the second class, with at least two characters
  for \<^verbatim>\<open>+\<close> and at least one for \<^verbatim>\<open>*\<close>.
\<close>

lemma re_plus_plus_iff:
  assumes "\<And>c. A c \<Longrightarrow> B c"
  shows "re_plus_plus A B s \<longleftrightarrow> 2 \<le> length s \<and> A (hd s) \<and> list_all B (tl s)"
proof
  assume "re_plus_plus A B s"
  then obtain i where i: "1 \<le> i" "i < length s" "list_all A (take i s)" "list_all B (drop i s)"
    by (auto simp: re_plus_plus_def list_ex_iff)
  then obtain c cs where s: "s = c # cs" by (cases s) auto
  from i s have "A c" by (cases i) auto
  moreover have "list_all B cs"
  proof -
    from i(1) obtain j where j: "i = Suc j" by (cases i) auto
    with i(3,4) s have "list_all A (take j cs)" "list_all B (drop j cs)" by auto
    with assms have "list_all B (take j cs)" "list_all B (drop j cs)"
      by (auto simp: list_all_iff)
    then have "list_all B (take j cs @ drop j cs)"
      by (simp only: list_all_append)
    then show ?thesis by simp
  qed
  ultimately show "2 \<le> length s \<and> A (hd s) \<and> list_all B (tl s)"
    using i s by auto
next
  assume r: "2 \<le> length s \<and> A (hd s) \<and> list_all B (tl s)"
  then obtain c cs where s: "s = c # cs" by (cases s) auto
  with r have "1 \<in> set [1 ..< length s]" "list_all A (take 1 s)" "list_all B (drop 1 s)"
    by auto
  then show "re_plus_plus A B s"
    unfolding re_plus_plus_def list_ex_iff by blast
qed

lemma re_plus_star_iff:
  assumes "\<And>c. A c \<Longrightarrow> B c"
  shows "re_plus_star A B s \<longleftrightarrow> s \<noteq> [] \<and> A (hd s) \<and> list_all B (tl s)"
proof
  assume "re_plus_star A B s"
  then obtain i where i: "1 \<le> i" "i \<le> length s" "list_all A (take i s)" "list_all B (drop i s)"
    by (auto simp: re_plus_star_def list_ex_iff)
  then obtain c cs where s: "s = c # cs" by (cases s) auto
  from i s have "A c" by (cases i) auto
  moreover have "list_all B cs"
  proof -
    from i(1) obtain j where j: "i = Suc j" by (cases i) auto
    with i(3,4) s have "list_all A (take j cs)" "list_all B (drop j cs)" by auto
    with assms have "list_all B (take j cs)" "list_all B (drop j cs)"
      by (auto simp: list_all_iff)
    then have "list_all B (take j cs @ drop j cs)"
      by (simp only: list_all_append)
    then show ?thesis by simp
  qed
  ultimately show "s \<noteq> [] \<and> A (hd s) \<and> list_all B (tl s)"
    using s by auto
next
  assume r: "s \<noteq> [] \<and> A (hd s) \<and> list_all B (tl s)"
  then obtain c cs where s: "s = c # cs" by (cases s) auto
  then have "(1::nat) \<in> {1 ..< Suc (length s)}" by simp
  then have "1 \<in> set [1 ..< Suc (length s)]" by (simp only: set_upt)
  moreover from s r have "list_all A (take 1 s)" "list_all B (drop 1 s)"
    by auto
  ultimately show "re_plus_star A B s"
    unfolding re_plus_star_def list_ex_iff by blast
qed

lemma name_match_examples:
  "name_match Index_ts first_name_class ''John O'Brien-Smith''"
  "\<not> name_match Index_ts first_name_class ''1John''"
  "\<not> name_match Index_ts first_name_class ''Smith, J''"
  "name_match Index_ts last_name_class ''Smith, J''"
  "\<not> name_match Index_ts first_name_class ''J''"
  "name_match Part_000 first_name_class ''J''"
  by code_simp+

subsection \<open>The field reducer keeps the type and the keys\<close>

lemma list_all_update:
  "P (k, v) \<Longrightarrow> list_all P al \<Longrightarrow> list_all P (AList.update k v al)"
  by (induction al) auto

lemma fieldsReducer_keys_mono: "fst ` set fs \<subseteq> fst ` set (fieldsReducer fs a)"
  by (auto simp: fieldsReducer_def dom_update)

lemma fieldsReducer_known:
  assumes typed: "fields_typed fs"
    and known: "atype a = ''UPDATE_VALUE'' \<or> atype a = ''BLUR_INPUT'' \<longrightarrow> afield a \<in> fst ` set fs"
  shows "fields_typed (fieldsReducer fs a) \<and> fst ` set (fieldsReducer fs a) = fst ` set fs"
proof (cases "atype a = ''UPDATE_VALUE'' \<or> atype a = ''BLUR_INPUT''")
  case False
  with typed show ?thesis by (simp add: fieldsReducer_def)
next
  case True
  with known have mem: "afield a \<in> fst ` set fs" by simp
  then obtain f where f: "map_of fs (afield a) = Some f"
    by (auto dest: weak_map_of_SomeI)
  from typed_lookup[OF typed f] have tf: "fvalue f \<noteq> None" "validation f \<noteq> None" by simp_all
  have keys: "fst ` set (AList.update (afield a) x fs) = fst ` set fs" for x
    using mem by (auto simp: dom_update)
  have ty: "fields_typed (AList.update (afield a) x fs)"
    if "fvalue x \<noteq> None" "validation x \<noteq> None" for x
    using typed that unfolding fields_typed_def by (intro list_all_update) simp_all
  from True f tf keys ty show ?thesis
    by (auto simp: fieldsReducer_def spread_def)
qed

subsection \<open>The initial error store\<close>

lemma initial_errors_fold:
  "map_of (foldl (\<lambda>acc current. assign_error acc current []) acc ks) k =
     (if k \<in> set ks \<and> k \<noteq> ''__proto__'' then Some [] else map_of acc k)"
  by (induction ks arbitrary: acc) (auto simp: assign_error_def update_conv')

lemma initial_errors_fold_keys:
  "fst ` set (foldl (\<lambda>acc current. assign_error acc current []) acc ks)
     = fst ` set acc \<union> (set ks - {''__proto__''})"
  by (induction ks arbitrary: acc) (auto simp: assign_error_def dom_update)

lemma map_of_initial_errors:
  "map_of (initial_errors init) k =
     (if k \<in> fst ` set init \<and> k \<noteq> ''__proto__'' then Some [] else None)"
  by (simp add: initial_errors_def initial_errors_fold set_object_keys)

lemma keys_initial_errors:
  "fst ` set (initial_errors init) = fst ` set init - {''__proto__''}"
  by (simp add: initial_errors_def initial_errors_fold_keys set_object_keys)

subsection \<open>Runs of the hook\<close>

lemma run_keys_subset:
  "fst ` set (errorState st0) \<subseteq> fst ` set (formState st0) \<Longrightarrow> run vr V st0 evs = Inr st \<Longrightarrow>
     fst ` set (errorState st) \<subseteq> fst ` set (formState st)"
proof (induction evs arbitrary: st0)
  case Nil
  then show ?case by simp
next
  case (Cons ev evs)
  show ?case
  proof (cases ev)
    case (Dispatch a)
    let ?st1 = "st0\<lparr>formState := fieldsReducer (formState st0) a\<rparr>"
    from Cons.prems(1) fieldsReducer_keys_mono[of "formState st0" a]
    have "fst ` set (errorState ?st1) \<subseteq> fst ` set (formState ?st1)" by auto
    moreover from Cons.prems(2) Dispatch have "run vr V ?st1 evs = Inr st" by simp
    ultimately show ?thesis by (rule Cons.IH)
  next
    case Effect
    with Cons.prems(2) obtain es' where
      es': "validation_pass vr V (formState st0) (errorState st0) = Inr es'"
      and r: "run vr V (st0\<lparr>errorState := es'\<rparr>) evs = Inr st"
      by (auto split: sum.splits)
    from validation_pass_keys[OF es'] Cons.prems(1)
    have "fst ` set (errorState (st0\<lparr>errorState := es'\<rparr>))
            \<subseteq> fst ` set (formState (st0\<lparr>errorState := es'\<rparr>))"
      by auto
    from Cons.IH[OF this r] show ?thesis .
  qed
qed

lemma run_append:
  "run vr V st (evs @ evs') =
     (case run vr V st evs of Inl e \<Rightarrow> Inl e | Inr st1 \<Rightarrow> run vr V st1 evs')"
  by (induction vr V st evs rule: run.induct) (auto split: sum.splits)

lemma run_known_targets:
  assumes "fields_typed (formState st0)"
    and "fst ` set (formState st0) = fst ` set init"
    and "fst ` set (errorState st0) \<subseteq> fst ` set init"
    and "list_all (known_target init) evs"
  shows "\<exists>st. run vr V st0 evs = Inr st
           \<and> fst ` set (formState st) = fst ` set init
           \<and> fst ` set (errorState st)
               = (if Effect \<in> set evs then fst ` set init else fst ` set (errorState st0))"
  using assms
proof (induction evs arbitrary: st0)
  case Nil
  then show ?case by simp
next
  case (Cons ev evs)
  from Cons.prems(4) have rest: "list_all (known_target init) evs" by simp
  show ?case
  proof (cases ev)
    case (Dispatch a)
    let ?st1 = "st0\<lparr>formState := fieldsReducer (formState st0) a\<rparr>"
    from Cons.prems(4) Dispatch Cons.prems(2)
    have "atype a = ''UPDATE_VALUE'' \<or> atype a = ''BLUR_INPUT''
            \<longrightarrow> afield a \<in> fst ` set (formState st0)"
      by (simp add: known_target_def set_object_keys)
    from fieldsReducer_known[OF Cons.prems(1) this] Cons.prems(2,3)
    have "fields_typed (formState ?st1)" "fst ` set (formState ?st1) = fst ` set init"
      "fst ` set (errorState ?st1) \<subseteq> fst ` set init"
      by simp_all
    from Cons.IH[OF this rest] obtain st where
      "run vr V ?st1 evs = Inr st" "fst ` set (formState st) = fst ` set init"
      "fst ` set (errorState st)
         = (if Effect \<in> set evs then fst ` set init else fst ` set (errorState ?st1))"
      by blast
    with Dispatch show ?thesis by auto
  next
    case Effect
    from validation_pass_total[OF Cons.prems(1)] obtain es' where
      es': "validation_pass vr V (formState st0) (errorState st0) = Inr es'"
      by blast
    let ?st1 = "st0\<lparr>errorState := es'\<rparr>"
    from validation_pass_keys[OF es'] Cons.prems(2,3)
    have full: "fst ` set es' = fst ` set init" by auto
    with Cons.prems(1,2)
    have "fields_typed (formState ?st1)" "fst ` set (formState ?st1) = fst ` set init"
      "fst ` set (errorState ?st1) \<subseteq> fst ` set init"
      by simp_all
    from Cons.IH[OF this rest] obtain st where
      "run vr V ?st1 evs = Inr st" "fst ` set (formState st) = fst ` set init"
      "fst ` set (errorState st)
         = (if Effect \<in> set evs then fst ` set init else fst ` set (errorState ?st1))"
      by blast
    with full Effect es' show ?thesis by simp
  qed
qed

subsection \<open>The search of \<open>formInvalid\<close>\<close>

lemma invalid_required_True:
  "invalid_required fs es key = Inr True \<longleftrightarrow>
     (\<exists>e fld vd. map_of es key = Some e \<and> e \<noteq> [] \<and> map_of fs key = Some fld
        \<and> validation fld = Some vd \<and> optional vd \<noteq> Some True)"
  by (auto simp: invalid_required_def split: option.splits if_splits)

lemma invalid_required_total:
  assumes "fields_typed fs" and "key \<in> fst ` set fs"
  shows "\<exists>b. invalid_required fs es key = Inr b"
proof -
  from assms(2) obtain fld where f: "map_of fs key = Some fld"
    by (auto dest: weak_map_of_SomeI)
  from typed_lookup[OF assms(1) f] obtain vd where "validation fld = Some vd" by auto
  with f show ?thesis by (auto simp: invalid_required_def split: option.splits)
qed

lemma find_key_result:
  assumes "\<forall>k \<in> set ks. \<exists>b. invalid_required fs es k = Inr b"
  shows "\<exists>r. find_key fs es ks = Inr r
           \<and> (case r of
                None \<Rightarrow> \<forall>k \<in> set ks. invalid_required fs es k = Inr False
              | Some k \<Rightarrow> k \<in> set ks \<and> invalid_required fs es k = Inr True)"
  using assms
proof (induction ks)
  case Nil
  then show ?case by simp
next
  case (Cons k ks)
  from Cons.prems obtain b where b: "invalid_required fs es k = Inr b" by auto
  show ?case
  proof (cases b)
    case True
    with b show ?thesis by simp
  next
    case False
    from Cons.prems have "\<forall>k \<in> set ks. \<exists>b. invalid_required fs es k = Inr b" by simp
    from Cons.IH[OF this] obtain r where r: "find_key fs es ks = Inr r"
      "case r of None \<Rightarrow> \<forall>k \<in> set ks. invalid_required fs es k = Inr False
       | Some k \<Rightarrow> k \<in> set ks \<and> invalid_required fs es k = Inr True"
      by blast
    with b False show ?thesis by (cases r) auto
  qed
qed

text \<open>
  Where the two stores have the declared shape and no key is the empty string,
  \<open>formInvalid\<close> is the existence test: some key has a non-empty error entry and a
  field that is not optional.
\<close>

lemma formInvalid_nonempty_keys:
  assumes typed: "fields_typed (formState st)"
    and sub: "fst ` set (errorState st) \<subseteq> fst ` set (formState st)"
    and nonempty: "[] \<notin> fst ` set (errorState st)"
  shows "formInvalid st =
           Inr (\<exists>key \<in> fst ` set (errorState st).
                  \<exists>e fld vd. map_of (errorState st) key = Some e \<and> e \<noteq> []
                    \<and> map_of (formState st) key = Some fld
                    \<and> validation fld = Some vd \<and> optional vd \<noteq> Some True)"
proof -
  let ?fs = "formState st" and ?es = "errorState st"
  have "\<exists>b. invalid_required ?fs ?es k = Inr b" if "k \<in> set (object_keys ?es)" for k
  proof -
    from that have "k \<in> fst ` set ?es" by (simp add: set_object_keys)
    with sub have "k \<in> fst ` set ?fs" by blast
    with typed show ?thesis by (rule invalid_required_total)
  qed
  then have "\<forall>k \<in> set (object_keys ?es). \<exists>b. invalid_required ?fs ?es k = Inr b"
    by blast
  from find_key_result[OF this] obtain r where r: "find_key ?fs ?es (object_keys ?es) = Inr r"
    "case r of None \<Rightarrow> \<forall>k \<in> set (object_keys ?es). invalid_required ?fs ?es k = Inr False
     | Some k \<Rightarrow> k \<in> set (object_keys ?es) \<and> invalid_required ?fs ?es k = Inr True"
    by blast
  show ?thesis
  proof (cases r)
    case None
    with r have "\<forall>k \<in> fst ` set ?es. invalid_required ?fs ?es k \<noteq> Inr True"
      by (simp add: set_object_keys)
    then have "\<not> (\<exists>key \<in> fst ` set ?es.
                  \<exists>e fld vd. map_of ?es key = Some e \<and> e \<noteq> []
                    \<and> map_of ?fs key = Some fld
                    \<and> validation fld = Some vd \<and> optional vd \<noteq> Some True)"
      unfolding invalid_required_True by blast
    with r(1) None show ?thesis by (simp add: formInvalid_def)
  next
    case (Some k)
    with r have k: "k \<in> fst ` set ?es" "invalid_required ?fs ?es k = Inr True"
      by (simp_all add: set_object_keys)
    from k(1) nonempty have "k \<noteq> []" by blast
    moreover from k have "\<exists>key \<in> fst ` set ?es.
                  \<exists>e fld vd. map_of ?es key = Some e \<and> e \<noteq> []
                    \<and> map_of ?fs key = Some fld
                    \<and> validation fld = Some vd \<and> optional vd \<noteq> Some True"
      unfolding invalid_required_True by blast
    ultimately show ?thesis using r(1) Some by (simp add: formInvalid_def)
  qed
qed

subsection \<open>The example data\<close>

lemma demo_typed: "fields_typed demo_fields"
  by (simp add: demo_fields_def fields_typed_def required_def)

lemma example_forms_typed:
  "fields_typed custom_fields" "fields_typed invalid_fields" "fields_typed matching_fields"
  "fields_typed confirm_only_form"
  by (simp_all add: custom_fields_def invalid_fields_def matching_fields_def
      confirm_only_form_def fields_typed_def)

lemma demo_lookup:
  "map_of demo_fields ''email''
     = Some \<lparr>fvalue = Some ''a@b.com'', blurred = None, validation = Some (required Email)\<rparr>"
  "map_of demo_fields ''password''
     = Some \<lparr>fvalue = Some ''secret1'', blurred = None, validation = Some (required Password)\<rparr>"
  "map_of demo_fields ''confirm''
     = Some \<lparr>fvalue = Some ''secret2'', blurred = None,
          validation = Some (required PasswordConfirmation)\<rparr>"
  by (simp_all add: demo_fields_def)

lemma custom_lookup:
  "map_of custom_fields ''email''
     = Some \<lparr>fvalue = Some ''not-an-email'', blurred = None,
          validation = Some (customized Email ''Custom!'')\<rparr>"
  "map_of custom_fields ''blank''
     = Some \<lparr>fvalue = Some '''', blurred = None,
          validation = Some (customized Email ''Custom!'')\<rparr>"
  "map_of custom_fields ''password''
     = Some \<lparr>fvalue = Some ''abc'', blurred = None,
          validation = Some (customized Password ''weak'')\<rparr>"
  "map_of custom_fields ''confirm''
     = Some \<lparr>fvalue = Some ''abd'', blurred = None,
          validation = Some (customized PasswordConfirmation ''no match'')\<rparr>"
  by (simp_all add: custom_fields_def)

lemma invalid_lookup:
  "map_of invalid_fields ''email''
     = Some \<lparr>fvalue = Some ''not-an-email'', blurred = None,
          validation = Some (required Email)\<rparr>"
  "map_of invalid_fields ''password''
     = Some \<lparr>fvalue = Some ''abc'', blurred = None, validation = Some (required Password)\<rparr>"
  "map_of invalid_fields ''blank''
     = Some \<lparr>fvalue = Some '''', blurred = None, validation = Some (required Password)\<rparr>"
  "map_of invalid_fields ''long''
     = Some \<lparr>fvalue = Some (replicate 129 (CHR ''a'')), blurred = None,
          validation = Some (required Password)\<rparr>"
  by (simp_all add: invalid_fields_def)

lemma matching_lookup:
  "map_of matching_fields ''confirm''
     = Some \<lparr>fvalue = Some ''secret1'', blurred = None,
          validation = Some (customized PasswordConfirmation ''no match'')\<rparr>"
  "map_of matching_fields ''password''
     = Some \<lparr>fvalue = Some ''secret1'', blurred = None, validation = Some (required Password)\<rparr>"
  by (simp_all add: matching_fields_def)

lemma confirm_only_lookup:
  "map_of confirm_only_form ''confirm''
     = Some \<lparr>fvalue = Some '''', blurred = None,
          validation = Some (required PasswordConfirmation)\<rparr>"
  "map_of confirm_only_form ''password'' = None"
  by (simp_all add: confirm_only_form_def)

lemma demo_validator_sel:
  "isEmail demo_validator ''a@b.com''"
  "\<not> isEmail demo_validator ''not-an-email''"
  "isLength demo_validator v lo hi = isLength_spec v lo hi"
  by (simp_all add: demo_validator_def)

lemma rule_sel [simp]:
  "vtype (required t) = t" "customError (required t) = None" "optional (required t) = None"
  "vtype (customized t c) = t" "customError (customized t c) = Some c"
  "optional (customized t c) = None"
  by (simp_all add: required_def customized_def)


section \<open>Properties of the reducers\<close>



text \<open>
  C8. Applying the fields reducer to a \<^verbatim>\<open>BLUR_INPUT\<close> action for key \<open>k\<close> makes the
  attribute \<^verbatim>\<open>blurred\<close> of field \<open>k\<close> true; the attributes \<^verbatim>\<open>value\<close> and
  \<^verbatim>\<open>validation\<close> of that field are what they were, every other key reads as before,
  and the order of the keys is unchanged when \<open>k\<close> was a key already.
\<close>

theorem blur_input_frame:
  "Option.bind (map_of (fieldsReducer s \<lparr>atype = ''BLUR_INPUT'', afield = k, avalue = v\<rparr>) k)
       blurred = Some True
   \<and> Option.bind (map_of (fieldsReducer s \<lparr>atype = ''BLUR_INPUT'', afield = k, avalue = v\<rparr>) k)
       fvalue = Option.bind (map_of s k) fvalue
   \<and> Option.bind (map_of (fieldsReducer s \<lparr>atype = ''BLUR_INPUT'', afield = k, avalue = v\<rparr>) k)
       validation = Option.bind (map_of s k) validation
   \<and> (\<forall>k'. k' \<noteq> k \<longrightarrow>
         map_of (fieldsReducer s \<lparr>atype = ''BLUR_INPUT'', afield = k, avalue = v\<rparr>) k'
           = map_of s k')
   \<and> (map_of s k \<noteq> None \<longrightarrow>
         map fst (fieldsReducer s \<lparr>atype = ''BLUR_INPUT'', afield = k, avalue = v\<rparr>)
           = map fst s)"
  by (cases "map_of s k")
     (auto simp: fieldsReducer_def update_conv' spread_def update_keys
           dest!: map_of_SomeD intro: rev_image_eqI)

theorem blur_input_frame_witness:
  "Option.bind (map_of (fieldsReducer demo_fields
        \<lparr>atype = ''BLUR_INPUT'', afield = ''email'', avalue = ''''\<rparr>) ''email'')
      blurred = Some True
   \<and> map_of (fieldsReducer demo_fields
        \<lparr>atype = ''BLUR_INPUT'', afield = ''email'', avalue = ''''\<rparr>) ''password''
      = map_of demo_fields ''password''
   \<and> map fst (fieldsReducer demo_fields
        \<lparr>atype = ''BLUR_INPUT'', afield = ''email'', avalue = ''''\<rparr>)
      = map fst demo_fields"
proof -
  note inst = blur_input_frame[of demo_fields "''email''" "''''"]
  have known: "map_of demo_fields ''email'' \<noteq> None"
    by (simp add: demo_fields_def)
  from inst have others: "\<forall>k'. k' \<noteq> ''email'' \<longrightarrow>
      map_of (fieldsReducer demo_fields
        \<lparr>atype = ''BLUR_INPUT'', afield = ''email'', avalue = ''''\<rparr>) k'
      = map_of demo_fields k'"
    by blast
  have "map_of (fieldsReducer demo_fields
        \<lparr>atype = ''BLUR_INPUT'', afield = ''email'', avalue = ''''\<rparr>) ''password''
      = map_of demo_fields ''password''"
    using others[rule_format, of "''password''"] by simp
  with inst known show ?thesis by simp
qed

text \<open>
  C9. On an action whose type tag is none of the recognized ones, the fields reducer and
  the errors reducer each return the state they were given.
\<close>

theorem unrecognized_action_identity:
  "(atype a \<noteq> ''UPDATE_VALUE'' \<and> atype a \<noteq> ''BLUR_INPUT'' \<longrightarrow> fieldsReducer s a = s)
   \<and> (etype b \<noteq> ''UPDATE_ERROR'' \<longrightarrow> errorsReducer e b = e)"
  by (simp add: fieldsReducer_def errorsReducer_def)

theorem unrecognized_action_identity_witness:
  "fieldsReducer demo_fields \<lparr>atype = ''RESET'', afield = ''email'', avalue = ''x''\<rparr> = demo_fields
   \<and> errorsReducer [(''email'', ''bad'')] \<lparr>etype = ''CLEAR'', efield = ''email'', eerror = ''''\<rparr>
       = [(''email'', ''bad'')]"
  using unrecognized_action_identity[of "\<lparr>atype = ''RESET'', afield = ''email'', avalue = ''x''\<rparr>"
      demo_fields "\<lparr>etype = ''CLEAR'', efield = ''email'', eerror = ''''\<rparr>" "[(''email'', ''bad'')]"]
  by simp

section \<open>Properties of the validation pass\<close>

text \<open>
  Each of the following theorems is about a field store of the declared type; on such
  a store the pass runs to completion, and the theorem says which entry the error store
  then holds for the field.
\<close>

text \<open>
  C2. A field whose \<^verbatim>\<open>validation.optional\<close> flag is true has the empty string as its
  error entry after a validation pass, whatever its value and its validation type.
\<close>

theorem optional_field_always_valid:
  assumes "fields_typed fs" and "map_of fs k = Some f" and "validation f = Some vd"
    and "optional vd = Some True"
  shows "\<exists>es'. validation_pass vr V fs es = Inr es' \<and> map_of es' k = Some ''''"
proof -
  from assms have "validateField vr V fs k = Inr (dispatchValid k)"
    by (simp add: validateField_def)
  from validation_pass_entry[OF assms(1,2) this] show ?thesis by simp
qed

theorem optional_field_always_valid_witness:
  "\<exists>es'. validation_pass Index_ts demo_validator demo_fields [] = Inr es'
         \<and> map_of es' ''nickname'' = Some ''''"
  using optional_field_always_valid[of demo_fields "''nickname''" _ _ Index_ts demo_validator "[]"]
  by (simp add: demo_typed) (simp add: demo_fields_def)

text \<open>
  C4. For a field that is not optional and has the validation type \<^verbatim>\<open>email\<close>, the pass
  sets the error entry to ``Please provide an email'' when the value is empty; when
  the value is not empty and \<^verbatim>\<open>isEmail\<close> rejects it, to the custom error if one is set
  (and is not the empty string), and to ``Please provide a valid email'' if none is;
  and to the empty string when \<^verbatim>\<open>isEmail\<close> accepts the value.
\<close>

theorem email_rule:
  assumes "fields_typed fs" and "map_of fs k = Some f" and "validation f = Some vd"
    and "optional vd \<noteq> Some True" and "vtype vd = Email" and "fvalue f = Some v"
  shows "\<exists>es'. validation_pass vr V fs es = Inr es'
           \<and> (v = '''' \<longrightarrow> map_of es' k = Some ''Please provide an email'')
           \<and> (v \<noteq> '''' \<and> \<not> isEmail V v \<longrightarrow>
                 (\<forall>c. customError vd = Some c \<and> c \<noteq> '''' \<longrightarrow> map_of es' k = Some c)
               \<and> (customError vd = None \<or> customError vd = Some '''' \<longrightarrow>
                     map_of es' k = Some ''Please provide a valid email''))
           \<and> (v \<noteq> '''' \<and> isEmail V v \<longrightarrow> map_of es' k = Some '''')"
proof -
  let ?e = "if v = '''' then ''Please provide an email''
            else if \<not> isEmail V v then or_else (customError vd) ''Please provide a valid email''
            else ''''"
  from assms have "validateField vr V fs k = Inr (update_error k ?e)"
    by (simp add: validateField_def rule_action_def dispatchValid_def)
  from validation_pass_entry[OF assms(1,2) this, of es]
  obtain es' where es': "validation_pass vr V fs es = Inr es'" "map_of es' k = Some ?e"
    by auto
  have "v = '''' \<longrightarrow> map_of es' k = Some ''Please provide an email''"
    using es'(2) by simp
  moreover have "v \<noteq> '''' \<and> isEmail V v \<longrightarrow> map_of es' k = Some ''''"
    using es'(2) by simp
  moreover have "v \<noteq> '''' \<and> \<not> isEmail V v \<longrightarrow>
                 (\<forall>c. customError vd = Some c \<and> c \<noteq> '''' \<longrightarrow> map_of es' k = Some c)
               \<and> (customError vd = None \<or> customError vd = Some '''' \<longrightarrow>
                     map_of es' k = Some ''Please provide a valid email'')"
    using es'(2) by (auto simp: or_else_def)
  ultimately show ?thesis using es'(1) by blast
qed

theorem email_rule_witness:
  "(\<exists>es'. validation_pass Index_ts demo_validator demo_fields [] = Inr es'
       \<and> map_of es' ''email'' = Some '''')
   \<and> (\<exists>es'. validation_pass Index_ts demo_validator custom_fields [] = Inr es'
       \<and> map_of es' ''email'' = Some ''Custom!'')
   \<and> (\<exists>es'. validation_pass Index_ts demo_validator custom_fields [] = Inr es'
       \<and> map_of es' ''blank'' = Some ''Please provide an email'')
   \<and> (\<exists>es'. validation_pass Index_ts demo_validator invalid_fields [] = Inr es'
       \<and> map_of es' ''email'' = Some ''Please provide a valid email'')"
proof -
  have "\<exists>es'. validation_pass Index_ts demo_validator demo_fields [] = Inr es'
       \<and> map_of es' ''email'' = Some ''''"
    using email_rule[OF demo_typed demo_lookup(1), where vd = "required Email"
        and v = "''a@b.com''" and vr = Index_ts and V = demo_validator and es = "[]"]
    by (auto simp: rule_sel demo_validator_sel)
  moreover have "\<exists>es'. validation_pass Index_ts demo_validator custom_fields [] = Inr es'
       \<and> map_of es' ''email'' = Some ''Custom!''"
    using email_rule[OF example_forms_typed(1) custom_lookup(1),
        where vd = "customized Email ''Custom!''"
        and v = "''not-an-email''" and vr = Index_ts and V = demo_validator and es = "[]"]
    by (auto simp: rule_sel demo_validator_sel)
  moreover have "\<exists>es'. validation_pass Index_ts demo_validator custom_fields [] = Inr es'
       \<and> map_of es' ''blank'' = Some ''Please provide an email''"
    using email_rule[OF example_forms_typed(1) custom_lookup(2),
        where vd = "customized Email ''Custom!''"
        and v = "''''" and vr = Index_ts and V = demo_validator and es = "[]"]
    by (auto simp: rule_sel)
  moreover have "\<exists>es'. validation_pass Index_ts demo_validator invalid_fields [] = Inr es'
       \<and> map_of es' ''email'' = Some ''Please provide a valid email''"
    using email_rule[OF example_forms_typed(2) invalid_lookup(1), where vd = "required Email"
        and v = "''not-an-email''" and vr = Index_ts and V = demo_validator and es = "[]"]
    by (auto simp: rule_sel demo_validator_sel)
  ultimately show ?thesis by blast
qed

text \<open>
  C5. For a field that is not optional and has the validation type \<^verbatim>\<open>password\<close>, with
  \<^verbatim>\<open>isLength\<close> testing the length of the value against the bounds, the pass sets the
  error entry to the empty string exactly when the length of the value is between 6 and
  128; when the length is below 6 (the empty value included) or above 128, it sets the
  entry to the custom error if one is set (and is not the empty string), and to
  ``Please provide a password of at least 6 characters'' if none is.
\<close>

theorem password_rule:
  assumes "fields_typed fs" and "map_of fs k = Some f" and "validation f = Some vd"
    and "optional vd \<noteq> Some True" and "vtype vd = Password" and "fvalue f = Some v"
    and "isLength V v 6 128 = isLength_spec v 6 128"
  shows "\<exists>es'. validation_pass vr V fs es = Inr es'
           \<and> (6 \<le> length v \<and> length v \<le> 128 \<longrightarrow> map_of es' k = Some '''')
           \<and> (length v < 6 \<or> 128 < length v \<longrightarrow>
                 (\<forall>c. customError vd = Some c \<and> c \<noteq> '''' \<longrightarrow> map_of es' k = Some c)
               \<and> (customError vd = None \<or> customError vd = Some '''' \<longrightarrow>
                     map_of es' k
                       = Some ''Please provide a password of at least 6 characters''))
           \<and> (map_of es' k = Some '''' \<longleftrightarrow> 6 \<le> length v \<and> length v \<le> 128)"
proof -
  let ?msg = "or_else (customError vd) ''Please provide a password of at least 6 characters''"
  let ?e = "if 6 \<le> length v \<and> length v \<le> 128 then '''' else ?msg"
  from assms have "validateField vr V fs k = Inr (update_error k ?e)"
    by (simp add: validateField_def rule_action_def dispatchValid_def isLength_spec_def)
  from validation_pass_entry[OF assms(1,2) this, of es]
  obtain es' where es': "validation_pass vr V fs es = Inr es'" "map_of es' k = Some ?e"
    by auto
  have ne: "?msg \<noteq> ''''" by (rule or_else_nonempty) simp
  have "6 \<le> length v \<and> length v \<le> 128 \<longrightarrow> map_of es' k = Some ''''"
    using es'(2) by simp
  moreover have "length v < 6 \<or> 128 < length v \<longrightarrow>
                 (\<forall>c. customError vd = Some c \<and> c \<noteq> '''' \<longrightarrow> map_of es' k = Some c)
               \<and> (customError vd = None \<or> customError vd = Some '''' \<longrightarrow>
                     map_of es' k
                       = Some ''Please provide a password of at least 6 characters'')"
    using es'(2) by (auto simp: or_else_def)
  moreover have "map_of es' k = Some '''' \<longleftrightarrow> 6 \<le> length v \<and> length v \<le> 128"
    using es'(2) ne by auto
  ultimately show ?thesis using es'(1) by blast
qed

theorem password_rule_witness:
  "(\<exists>es'. validation_pass Index_ts demo_validator demo_fields [] = Inr es'
       \<and> map_of es' ''password'' = Some '''')
   \<and> (\<exists>es'. validation_pass Index_ts demo_validator custom_fields [] = Inr es'
       \<and> map_of es' ''password'' = Some ''weak'')
   \<and> (\<exists>es'. validation_pass Index_ts demo_validator invalid_fields [] = Inr es'
       \<and> map_of es' ''password'' = Some ''Please provide a password of at least 6 characters'')
   \<and> (\<exists>es'. validation_pass Index_ts demo_validator invalid_fields [] = Inr es'
       \<and> map_of es' ''blank'' = Some ''Please provide a password of at least 6 characters'')
   \<and> (\<exists>es'. validation_pass Index_ts demo_validator invalid_fields [] = Inr es'
       \<and> map_of es' ''long'' = Some ''Please provide a password of at least 6 characters'')"
proof -
  have "\<exists>es'. validation_pass Index_ts demo_validator demo_fields [] = Inr es'
       \<and> map_of es' ''password'' = Some ''''"
    using password_rule[OF demo_typed demo_lookup(2), where vd = "required Password"
        and v = "''secret1''" and vr = Index_ts and V = demo_validator and es = "[]"]
    by (auto simp: rule_sel demo_validator_sel)
  moreover have "\<exists>es'. validation_pass Index_ts demo_validator custom_fields [] = Inr es'
       \<and> map_of es' ''password'' = Some ''weak''"
    using password_rule[OF example_forms_typed(1) custom_lookup(3),
        where vd = "customized Password ''weak''"
        and v = "''abc''" and vr = Index_ts and V = demo_validator and es = "[]"]
    by (auto simp: rule_sel demo_validator_sel)
  moreover have "\<exists>es'. validation_pass Index_ts demo_validator invalid_fields [] = Inr es'
       \<and> map_of es' ''password''
           = Some ''Please provide a password of at least 6 characters''"
    using password_rule[OF example_forms_typed(2) invalid_lookup(2), where vd = "required Password"
        and v = "''abc''" and vr = Index_ts and V = demo_validator and es = "[]"]
    by (auto simp: rule_sel demo_validator_sel)
  moreover have "\<exists>es'. validation_pass Index_ts demo_validator invalid_fields [] = Inr es'
       \<and> map_of es' ''blank''
           = Some ''Please provide a password of at least 6 characters''"
    using password_rule[OF example_forms_typed(2) invalid_lookup(3), where vd = "required Password"
        and v = "''''" and vr = Index_ts and V = demo_validator and es = "[]"]
    by (auto simp: rule_sel demo_validator_sel)
  moreover have "\<exists>es'. validation_pass Index_ts demo_validator invalid_fields [] = Inr es'
       \<and> map_of es' ''long''
           = Some ''Please provide a password of at least 6 characters''"
    using password_rule[OF example_forms_typed(2) invalid_lookup(4), where vd = "required Password"
        and v = "replicate 129 (CHR ''a'')" and vr = Index_ts and V = demo_validator
        and es = "[]"]
    by (auto simp: rule_sel demo_validator_sel)
  ultimately show ?thesis by blast
qed

text \<open>
  C3. For a field that is not optional and has the validation type
  \<^verbatim>\<open>passwordConfirmation\<close>, the pass sets the error entry to the empty string when the
  value equals the current value of the field keyed \<^verbatim>\<open>"password"\<close>. When the two
  differ, or when the store has no field keyed \<^verbatim>\<open>"password"\<close>, it sets the entry to the
  custom error if one is set (and is not the empty string), and to ``Passwords do not
  match'' if none is; in both cases the entry is not empty.
\<close>

theorem password_confirmation_rule:
  assumes "fields_typed fs" and "map_of fs k = Some f" and "validation f = Some vd"
    and "optional vd \<noteq> Some True" and "vtype vd = PasswordConfirmation"
    and "fvalue f = Some v"
  shows "\<exists>es'. validation_pass vr V fs es = Inr es'
           \<and> (\<forall>p. map_of fs ''password'' = Some p \<and> fvalue p = Some v \<longrightarrow>
                 map_of es' k = Some '''')
           \<and> (map_of fs ''password'' = None
                \<or> (\<exists>p. map_of fs ''password'' = Some p \<and> fvalue p \<noteq> Some v) \<longrightarrow>
                 (\<forall>c. customError vd = Some c \<and> c \<noteq> '''' \<longrightarrow> map_of es' k = Some c)
               \<and> (customError vd = None \<or> customError vd = Some '''' \<longrightarrow>
                     map_of es' k = Some ''Passwords do not match'')
               \<and> map_of es' k \<noteq> Some '''')"
proof -
  let ?mismatch = "or_else (customError vd) ''Passwords do not match''"
  let ?e = "if Option.bind (map_of fs ''password'') fvalue = Some v then '''' else ?mismatch"
  from assms have "validateField vr V fs k = Inr (update_error k ?e)"
    by (simp add: validateField_def rule_action_def dispatchValid_def)
  from validation_pass_entry[OF assms(1,2) this, of es]
  obtain es' where es': "validation_pass vr V fs es = Inr es'" "map_of es' k = Some ?e"
    by auto
  have ne: "?mismatch \<noteq> ''''" by (rule or_else_nonempty) simp
  have equal: "\<forall>p. map_of fs ''password'' = Some p \<and> fvalue p = Some v \<longrightarrow>
                 map_of es' k = Some ''''"
    using es'(2) by auto
  have differ: "map_of es' k = Some ?mismatch"
    if "map_of fs ''password'' = None
          \<or> (\<exists>p. map_of fs ''password'' = Some p \<and> fvalue p \<noteq> Some v)"
    using that es'(2) by auto
  have "map_of fs ''password'' = None
          \<or> (\<exists>p. map_of fs ''password'' = Some p \<and> fvalue p \<noteq> Some v) \<longrightarrow>
                 (\<forall>c. customError vd = Some c \<and> c \<noteq> '''' \<longrightarrow> map_of es' k = Some c)
               \<and> (customError vd = None \<or> customError vd = Some '''' \<longrightarrow>
                     map_of es' k = Some ''Passwords do not match'')
               \<and> map_of es' k \<noteq> Some ''''"
  proof
    assume "map_of fs ''password'' = None
          \<or> (\<exists>p. map_of fs ''password'' = Some p \<and> fvalue p \<noteq> Some v)"
    from differ[OF this] have m: "map_of es' k = Some ?mismatch" .
    have "\<forall>c. customError vd = Some c \<and> c \<noteq> '''' \<longrightarrow> map_of es' k = Some c"
      using m by (auto simp: or_else_def)
    moreover have "customError vd = None \<or> customError vd = Some '''' \<longrightarrow>
                     map_of es' k = Some ''Passwords do not match''"
      using m by (auto simp: or_else_def)
    moreover from m ne have "map_of es' k \<noteq> Some ''''" by simp
    ultimately show "(\<forall>c. customError vd = Some c \<and> c \<noteq> '''' \<longrightarrow> map_of es' k = Some c)
               \<and> (customError vd = None \<or> customError vd = Some '''' \<longrightarrow>
                     map_of es' k = Some ''Passwords do not match'')
               \<and> map_of es' k \<noteq> Some ''''"
      by blast
  qed
  with equal es'(1) show ?thesis by blast
qed

theorem password_confirmation_rule_witness:
  "(\<exists>es'. validation_pass Index_ts demo_validator demo_fields [] = Inr es'
         \<and> map_of es' ''confirm'' = Some ''Passwords do not match'')
   \<and> (\<exists>es'. validation_pass Index_ts demo_validator confirm_only_form [] = Inr es'
         \<and> map_of es' ''confirm'' = Some ''Passwords do not match'')
   \<and> (\<exists>es'. validation_pass Index_ts demo_validator custom_fields [] = Inr es'
         \<and> map_of es' ''confirm'' = Some ''no match'')
   \<and> (\<exists>es'. validation_pass Index_ts demo_validator matching_fields [] = Inr es'
         \<and> map_of es' ''confirm'' = Some '''')"
proof -
  have "\<exists>es'. validation_pass Index_ts demo_validator demo_fields [] = Inr es'
         \<and> map_of es' ''confirm'' = Some ''Passwords do not match''"
    using password_confirmation_rule[OF demo_typed demo_lookup(3),
        where vd = "required PasswordConfirmation"
        and v = "''secret2''" and vr = Index_ts and V = demo_validator and es = "[]"]
    by (auto simp: rule_sel demo_lookup(2))
  moreover have "\<exists>es'. validation_pass Index_ts demo_validator confirm_only_form [] = Inr es'
         \<and> map_of es' ''confirm'' = Some ''Passwords do not match''"
    using password_confirmation_rule[OF example_forms_typed(4) confirm_only_lookup(1),
        where vd = "required PasswordConfirmation"
        and v = "''''" and vr = Index_ts and V = demo_validator and es = "[]"]
    by (auto simp: rule_sel confirm_only_lookup(2))
  moreover have "\<exists>es'. validation_pass Index_ts demo_validator custom_fields [] = Inr es'
         \<and> map_of es' ''confirm'' = Some ''no match''"
    using password_confirmation_rule[OF example_forms_typed(1) custom_lookup(4),
        where vd = "customized PasswordConfirmation ''no match''"
        and v = "''abd''" and vr = Index_ts and V = demo_validator and es = "[]"]
    by (auto simp: rule_sel custom_lookup(3))
  moreover have "\<exists>es'. validation_pass Index_ts demo_validator matching_fields [] = Inr es'
         \<and> map_of es' ''confirm'' = Some ''''"
    using password_confirmation_rule[OF example_forms_typed(3) matching_lookup(1),
        where vd = "customized PasswordConfirmation ''no match''"
        and v = "''secret1''" and vr = Index_ts and V = demo_validator and es = "[]"]
    by (auto simp: rule_sel matching_lookup(2))
  ultimately show ?thesis by blast
qed

text \<open>
  C10. For a field that is not optional, has the validation type \<^verbatim>\<open>firstName\<close> or
  \<^verbatim>\<open>lastName\<close> and a value of a single letter, the pass of \<^verbatim>\<open>src/index.ts\<close> sets the
  error entry to the message of the pattern branch (the custom error when it is set and
  not empty, or else the text about the alpha character), which is not empty; the pass
  of the variant \<^verbatim>\<open>src/unnamed/part_000\<close>, whose patterns end in \<^verbatim>\<open>*\<close>, sets it to the
  empty string.
\<close>

theorem single_letter_name:
  assumes "fields_typed fs" and "map_of fs k = Some f" and "validation f = Some vd"
    and "optional vd \<noteq> Some True" and "vtype vd = FirstName \<or> vtype vd = LastName"
    and "fvalue f = Some [c]" and "is_alpha c"
  shows "(\<exists>es'. validation_pass Index_ts V fs es = Inr es'
            \<and> map_of es' k = Some (or_else (customError vd) (name_pattern_error (vtype vd)))
            \<and> map_of es' k \<noteq> Some '''')
       \<and> (\<exists>es'. validation_pass Part_000 V fs es = Inr es' \<and> map_of es' k = Some '''')"
proof -
  let ?msg = "or_else (customError vd) (name_pattern_error (vtype vd))"
  from assms(5) have ne: "?msg \<noteq> ''''"
    by (intro or_else_nonempty) (auto simp: name_pattern_error_def pattern_errors_nonempty)
  have rule: "rule_action vr V fs k f vd =
      Inr (name_rule vr (if vtype vd = FirstName then first_name_class else last_name_class)
             (if vtype vd = FirstName then ''Please provide a first name.''
              else ''Please provide a last name.'')
             (name_pattern_error (vtype vd)) vd k [c])" for vr
  proof (cases "vtype vd = FirstName")
    case True
    with assms(6) show ?thesis by (simp add: rule_action_def name_pattern_error_def)
  next
    case False
    with assms(5) have "vtype vd = LastName" by simp
    with assms(6) show ?thesis by (simp add: rule_action_def name_pattern_error_def)
  qed
  have field: "validateField vr V fs k = rule_action vr V fs k f vd" for vr
    using assms(2-4) by (simp add: validateField_def)
  have "validateField Index_ts V fs k = Inr (update_error k ?msg)"
    by (simp add: field rule name_rule_def name_match_def single_letter_no_match)
  from validation_pass_entry[OF assms(1,2) this, of es] ne
  have index: "\<exists>es'. validation_pass Index_ts V fs es = Inr es'
            \<and> map_of es' k = Some ?msg \<and> map_of es' k \<noteq> Some ''''"
    by auto
  have "validateField Part_000 V fs k = Inr (dispatchValid k)"
    using assms(7)
    by (simp add: field rule name_rule_def name_match_def single_letter_match
        first_name_class_def last_name_class_def)
  from validation_pass_entry[OF assms(1,2) this, of es]
  have "\<exists>es'. validation_pass Part_000 V fs es = Inr es' \<and> map_of es' k = Some ''''"
    by simp
  with index show ?thesis by blast
qed

theorem single_letter_name_witness:
  "(\<exists>es'. validation_pass Index_ts demo_validator demo_fields [] = Inr es'
       \<and> map_of es' ''first'' = Some first_name_pattern_error
       \<and> map_of es' ''first'' \<noteq> Some '''')
   \<and> (\<exists>es'. validation_pass Part_000 demo_validator demo_fields [] = Inr es'
       \<and> map_of es' ''first'' = Some '''')"
  using single_letter_name[of demo_fields "''first''" _ "required FirstName" "CHR ''J''"
      demo_validator "[]"]
  by (simp add: demo_typed)
     (simp add: demo_fields_def required_def or_else_def name_pattern_error_def is_alpha_def)

section \<open>Properties of the two stores\<close>

text \<open>
  A dispatch that names no field of the form adds a key to the field store, and the
  error store does not have it: after the first validation pass of the example form
  and such a dispatch, the key sets of the two stores differ. (The next validation
  effect then throws, since the new field has no validation rule.)
\<close>

theorem keys_differ_after_unknown_key:
  "fields_typed demo_fields
   \<and> \<not> isl unknown_key_run
   \<and> ''nope'' \<in> set (object_keys (formState (projr unknown_key_run)))
   \<and> ''nope'' \<notin> set (object_keys (errorState (projr unknown_key_run)))
   \<and> set (object_keys (formState (projr unknown_key_run)))
       \<noteq> set (object_keys (errorState (projr unknown_key_run)))"
  by code_simp

lemma crash_after_unknown_key:
  "run Index_ts demo_validator (useForm demo_fields)
       [Effect, Dispatch \<lparr>atype = ''UPDATE_VALUE'', afield = ''nope'', avalue = ''x''\<rparr>, Effect]
     = Inl TypeError"
  by code_simp

text \<open>
  The initial error store has no entry for an initial key \<^verbatim>\<open>"__proto__"\<close>; the first
  validation pass adds it, since the errors reducer builds its result with an object
  literal.
\<close>

lemma initial_store_skips_proto:
  "fields_typed proto_form
   \<and> errorState (useForm proto_form) = []
   \<and> run Index_ts demo_validator (useForm proto_form) [Effect]
       = Inr \<lparr>formState = proto_form, errorState = [(''__proto__'', '''')]\<rparr>"
  by code_simp

text \<open>
  The key sets of the two stores along a run, for any initial field store of the
  declared type: what the error store starts with, what a validation pass dispatches,
  that no error key is ever without a field, what the key sets are while every
  dispatch of a recognized type names an initial key, and what a dispatch to a key
  that the field store does not have leaves behind.
\<close>

lemma stores_keys_precise:
  assumes "fields_typed init"
  shows "set (object_keys (errorState (useForm init))) = set (object_keys init) - {''__proto__''}
       \<and> (\<forall>k \<in> set (object_keys init). k \<noteq> ''__proto__'' \<longrightarrow>
             map_of (errorState (useForm init)) k = Some '''')
       \<and> (\<forall>fs as. validate vr V fs = Inr as \<longrightarrow>
             (\<forall>a \<in> set as. etype a = ''UPDATE_ERROR'' \<and> efield a \<in> set (object_keys fs)))
       \<and> (\<forall>st. run vr V (useForm init) evs = Inr st \<longrightarrow>
             set (object_keys (errorState st)) \<subseteq> set (object_keys (formState st)))
       \<and> (list_all (known_target init) evs \<longrightarrow>
             (\<exists>st. run vr V (useForm init) evs = Inr st
                \<and> set (object_keys (formState st)) = set (object_keys init)
                \<and> set (object_keys (errorState st))
                    = (if Effect \<in> set evs then set (object_keys init)
                       else set (object_keys init) - {''__proto__''})))
       \<and> (\<forall>st (a::FormAction). run vr V (useForm init) evs = Inr st
               \<and> (atype a = ''UPDATE_VALUE'' \<or> atype a = ''BLUR_INPUT'')
               \<and> afield a \<notin> set (object_keys (formState st)) \<longrightarrow>
             (\<exists>st'. run vr V (useForm init) (evs @ [Dispatch a]) = Inr st'
                \<and> afield a \<in> set (object_keys (formState st'))
                \<and> afield a \<notin> set (object_keys (errorState st'))))"
proof -
  have init_sub: "fst ` set (errorState (useForm init)) \<subseteq> fst ` set (formState (useForm init))"
    by (auto simp: useForm_def keys_initial_errors)
  have c1: "set (object_keys (errorState (useForm init)))
              = set (object_keys init) - {''__proto__''}"
    by (simp add: set_object_keys useForm_def keys_initial_errors)
  have c2: "\<forall>k \<in> set (object_keys init). k \<noteq> ''__proto__'' \<longrightarrow>
             map_of (errorState (useForm init)) k = Some ''''"
    by (simp add: set_object_keys useForm_def map_of_initial_errors)
  have c3: "\<forall>fs as. validate vr V fs = Inr as \<longrightarrow>
             (\<forall>a \<in> set as. etype a = ''UPDATE_ERROR'' \<and> efield a \<in> set (object_keys fs))"
  proof (intro allI impI ballI)
    fix fs as a
    assume v: "validate vr V fs = Inr as" and a: "a \<in> set as"
    from validate_targets[OF v] a have "etype a = ''UPDATE_ERROR''" by simp
    moreover from a have "efield a \<in> set (map efield as)" by simp
    with validate_targets[OF v] have "efield a \<in> set (object_keys fs)" by simp
    ultimately show "etype a = ''UPDATE_ERROR'' \<and> efield a \<in> set (object_keys fs)" ..
  qed
  have sub: "set (object_keys (errorState st)) \<subseteq> set (object_keys (formState st))"
    if "run vr V (useForm init) evs = Inr st" for st
    using run_keys_subset[OF init_sub that] by (simp add: set_object_keys)
  then have c4: "\<forall>st. run vr V (useForm init) evs = Inr st \<longrightarrow>
             set (object_keys (errorState st)) \<subseteq> set (object_keys (formState st))"
    by blast
  have c5: "list_all (known_target init) evs \<longrightarrow>
             (\<exists>st. run vr V (useForm init) evs = Inr st
                \<and> set (object_keys (formState st)) = set (object_keys init)
                \<and> set (object_keys (errorState st))
                    = (if Effect \<in> set evs then set (object_keys init)
                       else set (object_keys init) - {''__proto__''}))"
  proof
    assume k: "list_all (known_target init) evs"
    have "fields_typed (formState (useForm init))"
      "fst ` set (formState (useForm init)) = fst ` set init"
      "fst ` set (errorState (useForm init)) \<subseteq> fst ` set init"
      using assms by (auto simp: useForm_def keys_initial_errors)
    from run_known_targets[OF this k, of vr V] obtain st where
      "run vr V (useForm init) evs = Inr st" "fst ` set (formState st) = fst ` set init"
      "fst ` set (errorState st)
         = (if Effect \<in> set evs then fst ` set init
            else fst ` set (errorState (useForm init)))"
      by blast
    then show "\<exists>st. run vr V (useForm init) evs = Inr st
                \<and> set (object_keys (formState st)) = set (object_keys init)
                \<and> set (object_keys (errorState st))
                    = (if Effect \<in> set evs then set (object_keys init)
                       else set (object_keys init) - {''__proto__''})"
      by (simp add: set_object_keys useForm_def keys_initial_errors)
  qed
  have c6: "\<forall>st (a::FormAction). run vr V (useForm init) evs = Inr st
               \<and> (atype a = ''UPDATE_VALUE'' \<or> atype a = ''BLUR_INPUT'')
               \<and> afield a \<notin> set (object_keys (formState st)) \<longrightarrow>
             (\<exists>st'. run vr V (useForm init) (evs @ [Dispatch a]) = Inr st'
                \<and> afield a \<in> set (object_keys (formState st'))
                \<and> afield a \<notin> set (object_keys (errorState st')))"
  proof (intro allI impI)
    fix st and a :: FormAction
    assume h: "run vr V (useForm init) evs = Inr st
               \<and> (atype a = ''UPDATE_VALUE'' \<or> atype a = ''BLUR_INPUT'')
               \<and> afield a \<notin> set (object_keys (formState st))"
    let ?st' = "st\<lparr>formState := fieldsReducer (formState st) a\<rparr>"
    from h have r: "run vr V (useForm init) (evs @ [Dispatch a]) = Inr ?st'"
      by (simp add: run_append)
    from h have "afield a \<in> fst ` set (fieldsReducer (formState st) a)"
      by (auto simp: fieldsReducer_def dom_update)
    then have inn: "afield a \<in> set (object_keys (formState ?st'))"
      by (simp add: set_object_keys)
    from h sub[of st] have out: "afield a \<notin> set (object_keys (errorState ?st'))"
      by auto
    from r inn out
    show "\<exists>st'. run vr V (useForm init) (evs @ [Dispatch a]) = Inr st'
                \<and> afield a \<in> set (object_keys (formState st'))
                \<and> afield a \<notin> set (object_keys (errorState st'))"
      by blast
  qed
  show ?thesis
    by (rule conjI[OF c1 conjI[OF c2 conjI[OF c3 conjI[OF c4 conjI[OF c5 c6]]]]])
qed

lemma member_differs: "k \<in> A \<Longrightarrow> p \<notin> A \<Longrightarrow> k \<noteq> p"
  by blast

text \<open>
  C7, as amended. Let no key of the initial field store be \<^verbatim>\<open>"__proto__"\<close>. The error
  store starts with exactly the keys of the initial field store, each with the empty
  string. Every action that a validation pass dispatches is an \<^verbatim>\<open>UPDATE_ERROR\<close> for a
  key of the field store. In every state that a run of the hook reaches, each key of
  the error store is a key of the field store. When every dispatched action of a
  recognized type names a key of the initial field store, the run reaches a state (no
  validation pass throws) and there the two stores have the same set of keys, that of
  the initial field store. From any reachable state, dispatching an action of a
  recognized type that names a key which the field store does not have gives a state in
  which the field store has that key and the error store does not.
\<close>

theorem stores_keys_known_targets:
  assumes "fields_typed init" and "''__proto__'' \<notin> set (object_keys init)"
  shows "set (object_keys (errorState (useForm init))) = set (object_keys init)
       \<and> (\<forall>k \<in> set (object_keys init). map_of (errorState (useForm init)) k = Some '''')
       \<and> (\<forall>fs as. validate vr V fs = Inr as \<longrightarrow>
             (\<forall>a \<in> set as. etype a = ''UPDATE_ERROR'' \<and> efield a \<in> set (object_keys fs)))
       \<and> (\<forall>st. run vr V (useForm init) evs = Inr st \<longrightarrow>
             set (object_keys (errorState st)) \<subseteq> set (object_keys (formState st)))
       \<and> (list_all (known_target init) evs \<longrightarrow>
             (\<exists>st. run vr V (useForm init) evs = Inr st
                \<and> set (object_keys (formState st)) = set (object_keys init)
                \<and> set (object_keys (errorState st)) = set (object_keys (formState st))))
       \<and> (\<forall>st (a::FormAction). run vr V (useForm init) evs = Inr st
               \<and> (atype a = ''UPDATE_VALUE'' \<or> atype a = ''BLUR_INPUT'')
               \<and> afield a \<notin> set (object_keys (formState st)) \<longrightarrow>
             (\<exists>st'. run vr V (useForm init) (evs @ [Dispatch a]) = Inr st'
                \<and> afield a \<in> set (object_keys (formState st'))
                \<and> afield a \<notin> set (object_keys (errorState st'))))"
proof -
  note p = stores_keys_precise[OF assms(1), of vr V evs]
  note p1 = p[THEN conjunct1]
  note p2 = p[THEN conjunct2, THEN conjunct1]
  note p3 = p[THEN conjunct2, THEN conjunct2, THEN conjunct1]
  note p4 = p[THEN conjunct2, THEN conjunct2, THEN conjunct2, THEN conjunct1]
  note p5 = p[THEN conjunct2, THEN conjunct2, THEN conjunct2, THEN conjunct2, THEN conjunct1]
  note p6 = p[THEN conjunct2, THEN conjunct2, THEN conjunct2, THEN conjunct2, THEN conjunct2]
  have d: "set (object_keys init) - {''__proto__''} = set (object_keys init)"
    using assms(2) by (rule Diff_triv[OF Int_insert_right_if0[THEN trans, OF _ Int_empty_right]])
  have c1: "set (object_keys (errorState (useForm init))) = set (object_keys init)"
    using p1 unfolding d .
  have c2: "\<forall>k \<in> set (object_keys init). map_of (errorState (useForm init)) k = Some ''''"
  proof
    fix k assume k: "k \<in> set (object_keys init)"
    from member_differs[OF k assms(2)] have "k \<noteq> ''__proto__''" .
    with p2[rule_format, OF k] show "map_of (errorState (useForm init)) k = Some ''''" .
  qed
  have c5: "list_all (known_target init) evs \<longrightarrow>
             (\<exists>st. run vr V (useForm init) evs = Inr st
                \<and> set (object_keys (formState st)) = set (object_keys init)
                \<and> set (object_keys (errorState st)) = set (object_keys (formState st)))"
  proof
    assume "list_all (known_target init) evs"
    from p5[THEN mp, OF this] obtain st where
      st: "run vr V (useForm init) evs = Inr st"
      and fs: "set (object_keys (formState st)) = set (object_keys init)"
      and es: "set (object_keys (errorState st))
          = (if Effect \<in> set evs then set (object_keys init)
             else set (object_keys init) - {''__proto__''})"
      by blast
    from es have "set (object_keys (errorState st)) = set (object_keys init)"
      unfolding d if_cancel .
    from this fs[symmetric]
    have "set (object_keys (errorState st)) = set (object_keys (formState st))"
      by (rule trans)
    with st fs show "\<exists>st. run vr V (useForm init) evs = Inr st
                \<and> set (object_keys (formState st)) = set (object_keys init)
                \<and> set (object_keys (errorState st)) = set (object_keys (formState st))"
      by (intro exI[of _ st] conjI)
  qed
  show ?thesis
    by (rule conjI[OF c1 conjI[OF c2 conjI[OF p3 conjI[OF p4 conjI[OF c5 p6]]]]])
qed

theorem stores_keys_known_targets_witness:
  "fields_typed demo_fields
   \<and> ''__proto__'' \<notin> set (object_keys demo_fields)
   \<and> list_all (known_target demo_fields) demo_events
   \<and> map_of (errorState (useForm demo_fields)) ''email'' = Some ''''
   \<and> (\<exists>st. run Index_ts demo_validator (useForm demo_fields) demo_events = Inr st
          \<and> set (object_keys (errorState st)) \<subseteq> set (object_keys (formState st))
          \<and> set (object_keys (errorState st)) = set (object_keys (formState st)))
   \<and> (\<exists>st'. run Index_ts demo_validator (useForm demo_fields)
                (demo_events @ [Dispatch \<lparr>atype = ''UPDATE_VALUE'', afield = ''nope'', avalue = ''''\<rparr>])
              = Inr st'
          \<and> ''nope'' \<in> set (object_keys (formState st'))
          \<and> ''nope'' \<notin> set (object_keys (errorState st')))"
proof -
  have known: "list_all (known_target demo_fields) demo_events"
    by code_simp
  have key: "''email'' \<in> set (object_keys demo_fields)"
    by code_simp
  have nope: "''nope'' \<notin> set (object_keys demo_fields)"
    by code_simp
  have noproto: "''__proto__'' \<notin> set (object_keys demo_fields)"
    by code_simp
  note inst = stores_keys_known_targets[OF demo_typed noproto,
      of Index_ts demo_validator demo_events]
  note entries = inst[THEN conjunct2, THEN conjunct1]
  note equal = inst[THEN conjunct2, THEN conjunct2, THEN conjunct2, THEN conjunct2,
      THEN conjunct1]
  note unknown_key = inst[THEN conjunct2, THEN conjunct2, THEN conjunct2, THEN conjunct2,
      THEN conjunct2]
  note init = entries[rule_format, OF key]
  from equal[THEN mp, OF known]
  obtain st where st: "run Index_ts demo_validator (useForm demo_fields) demo_events = Inr st"
    and fs: "set (object_keys (formState st)) = set (object_keys demo_fields)"
    and es: "set (object_keys (errorState st)) = set (object_keys (formState st))"
    by blast
  let ?a = "\<lparr>atype = ''UPDATE_VALUE'', afield = ''nope'', avalue = ''''\<rparr>"
  have notin: "''nope'' \<notin> set (object_keys (formState st))"
    unfolding fs by (rule nope)
  have pre: "run Index_ts demo_validator (useForm demo_fields) demo_events = Inr st
               \<and> (atype ?a = ''UPDATE_VALUE'' \<or> atype ?a = ''BLUR_INPUT'')
               \<and> afield ?a \<notin> set (object_keys (formState st))"
    using st notin by simp
  have sel: "afield ?a = ''nope''"
    by simp
  from unknown_key[rule_format, OF pre]
  have unknown: "\<exists>st'. run Index_ts demo_validator (useForm demo_fields)
                (demo_events @ [Dispatch ?a]) = Inr st'
          \<and> ''nope'' \<in> set (object_keys (formState st'))
          \<and> ''nope'' \<notin> set (object_keys (errorState st'))"
    unfolding sel .
  have both: "\<exists>st. run Index_ts demo_validator (useForm demo_fields) demo_events = Inr st
          \<and> set (object_keys (errorState st)) \<subseteq> set (object_keys (formState st))
          \<and> set (object_keys (errorState st)) = set (object_keys (formState st))"
  proof (intro exI[of _ st] conjI)
    show "run Index_ts demo_validator (useForm demo_fields) demo_events = Inr st"
      by (rule st)
    show "set (object_keys (errorState st)) \<subseteq> set (object_keys (formState st))"
      unfolding es by (rule subset_refl)
    show "set (object_keys (errorState st)) = set (object_keys (formState st))"
      by (rule es)
  qed
  show ?thesis
    by (rule conjI[OF demo_typed conjI[OF noproto conjI[OF known conjI[OF init conjI[OF both unknown]]]]])
qed

text \<open>
  C1. \<^verbatim>\<open>formInvalid\<close> should be true exactly when some key has a non-empty error entry
  and a field that is not optional. The code coerces the key that \<^verbatim>\<open>find\<close> returns, so
  on the form whose only field is keyed by the empty string, with an empty required
  email value, the first validation pass stores the error ``Please provide an email''
  for that field and \<^verbatim>\<open>formInvalid\<close> is nevertheless false.
\<close>

theorem formInvalid_empty_key:
  "fields_typed empty_key_form
   \<and> run Index_ts demo_validator (useForm empty_key_form) [Effect] = Inr empty_key_state
   \<and> map_of (errorState empty_key_state) '''' = Some ''Please provide an email''
   \<and> Option.bind (Option.bind (map_of (formState empty_key_state) '''') validation) optional
       \<noteq> Some True
   \<and> formInvalid empty_key_state = Inr False"
  by code_simp

end
